theory Spec2Isabelle
  imports Complex_Main
begin

section \<open>Pivot calibration (pivot\_calibration.py)\<close>

text \<open>
  The embedding works over exact real arithmetic.  The geometry objects of math3d are
  fixed-size values; the two-dimensional numpy arrays built by \<open>np.vstack\<close> are lists
  of rows.
\<close>

subsection \<open>math3d values\<close>

type_synonym vec3 = "real \<times> real \<times> real"

text \<open>A 3x3 matrix, given by its three rows.\<close>

type_synonym mat3 = "vec3 \<times> vec3 \<times> vec3"

text \<open>\<open>m3d.Transform\<close>: an orientation (\<open>.orient\<close>) and a position (\<open>.pos\<close>).\<close>

record transform =
  orient :: mat3
  pos :: vec3

text \<open>\<open>Orientation * Vector\<close>: the matrix-vector product.\<close>

fun orient_mul :: "mat3 \<Rightarrow> vec3 \<Rightarrow> vec3" where
  "orient_mul ((a11, a12, a13), (a21, a22, a23), (a31, a32, a33)) (x, y, z) =
     (a11 * x + a12 * y + a13 * z,
      a21 * x + a22 * y + a23 * z,
      a31 * x + a32 * y + a33 * z)"

fun vec_add :: "vec3 \<Rightarrow> vec3 \<Rightarrow> vec3" where
  "vec_add (x1, y1, z1) (x2, y2, z2) = (x1 + x2, y1 + y2, z1 + z2)"

fun vec_sub :: "vec3 \<Rightarrow> vec3 \<Rightarrow> vec3" where
  "vec_sub (x1, y1, z1) (x2, y2, z2) = (x1 - x2, y1 - y2, z1 - z2)"

text \<open>\<open>Transform * Vector\<close>: rotate, then translate.\<close>

definition transform_mul :: "transform \<Rightarrow> vec3 \<Rightarrow> vec3" where
  "transform_mul bf v = vec_add (orient_mul (orient bf) v) (pos bf)"

subsection \<open>numpy arrays\<close>

type_synonym ndarray1 = "real list"
type_synonym ndarray2 = "real list list"

text \<open>\<open>.array\<close> of an orientation (3x3) and of a vector (length 3).\<close>

fun orient_array :: "mat3 \<Rightarrow> ndarray2" where
  "orient_array ((a11, a12, a13), (a21, a22, a23), (a31, a32, a33)) =
     [[a11, a12, a13], [a21, a22, a23], [a31, a32, a33]]"

fun vec_array :: "vec3 \<Rightarrow> ndarray1" where
  "vec_array (x, y, z) = [x, y, z]"

text \<open>Elementwise difference of two arrays of the same shape.\<close>

definition sub1 :: "ndarray1 \<Rightarrow> ndarray1 \<Rightarrow> ndarray1" where
  "sub1 u v = map2 (-) u v"

definition sub2 :: "ndarray2 \<Rightarrow> ndarray2 \<Rightarrow> ndarray2" where
  "sub2 a b = map2 sub1 a b"

text \<open>\<open>.reshape((3,1))\<close> of a length-3 array: a column.\<close>

definition reshape_col :: "ndarray1 \<Rightarrow> ndarray2" where
  "reshape_col v = map (\<lambda>x. [x]) v"

text \<open>\<open>.reshape(-1)\<close>: flatten row by row.\<close>

definition reshape_flat :: "ndarray2 \<Rightarrow> ndarray1" where
  "reshape_flat a = concat a"

text \<open>
  The exceptions: \<open>ValueError\<close> is what \<open>np.vstack\<close> raises on an empty sequence of blocks
  ("need at least one array to concatenate"), the failure the specification names
  InsufficientDataError; \<open>Math3dError\<close> stands for \<open>m3d.Vector\<close> refusing an array that
  does not have three components.
\<close>

datatype error = ValueError | Math3dError

text \<open>\<open>np.vstack\<close>: the rows of the blocks follow each other.\<close>

definition vstack :: "ndarray2 list \<Rightarrow> error + ndarray2" where
  "vstack blocks = (if blocks = [] then Inl ValueError else Inr (concat blocks))"

subsection \<open>Pair enumeration\<close>

text \<open>
  \<open>itertools.combinations(xs, 2)\<close>: every pair of positions i < j, in lexicographic order
  of the positions.
\<close>

fun combinations2 :: "'a list \<Rightarrow> ('a \<times> 'a) list" where
  "combinations2 [] = []"
| "combinations2 (x # xs) = map (Pair x) xs @ combinations2 xs"

subsection \<open>Assembly of the linear system\<close>

text \<open>Line 49: \<open>bfi.orient.array - bfj.orient.array\<close>.\<close>

definition block_A :: "transform \<times> transform \<Rightarrow> ndarray2" where
  "block_A p = sub2 (orient_array (orient (fst p))) (orient_array (orient (snd p)))"

text \<open>Line 53: \<open>(bfj.pos.array - bfi.pos.array).reshape((3,1))\<close>.\<close>

definition block_b :: "transform \<times> transform \<Rightarrow> ndarray2" where
  "block_b p = reshape_col (sub1 (vec_array (pos (snd p))) (vec_array (pos (fst p))))"

definition assemble_A :: "(transform \<times> transform) list \<Rightarrow> error + ndarray2" where
  "assemble_A cs = vstack (map block_A cs)"

definition assemble_b :: "(transform \<times> transform) list \<Rightarrow> error + ndarray2" where
  "assemble_b cs = vstack (map block_b cs)"

subsection \<open>The pseudoinverse\<close>

text \<open>
  \<open>np.linalg.pinv\<close> is numpy's; over exact arithmetic it is the Moore-Penrose
  pseudoinverse.  The program only ever passes it an array with three columns, and for
  such an array A the pseudoinverse is \<open>pinv_sym (A\<^sup>T A) A\<^sup>T\<close>, where the pseudoinverse
  of the symmetric positive semidefinite 3x3 matrix \<open>A\<^sup>T A\<close> has a closed form by rank,
  read off the coefficients of its characteristic polynomial.
\<close>

definition dot :: "ndarray1 \<Rightarrow> ndarray1 \<Rightarrow> real" where
  "dot u v = sum_list (map2 (*) u v)"

definition col :: "nat \<Rightarrow> ndarray2 \<Rightarrow> ndarray1" where
  "col j a = map (\<lambda>r. r ! j) a"

text \<open>\<open>A\<^sup>T A\<close> for an array A of three columns.\<close>

definition gram :: "ndarray2 \<Rightarrow> mat3" where
  "gram a =
     ((dot (col 0 a) (col 0 a), dot (col 0 a) (col 1 a), dot (col 0 a) (col 2 a)),
      (dot (col 1 a) (col 0 a), dot (col 1 a) (col 1 a), dot (col 1 a) (col 2 a)),
      (dot (col 2 a) (col 0 a), dot (col 2 a) (col 1 a), dot (col 2 a) (col 2 a)))"

fun mat_mul :: "mat3 \<Rightarrow> mat3 \<Rightarrow> mat3" where
  "mat_mul ((a11, a12, a13), (a21, a22, a23), (a31, a32, a33))
           ((b11, b12, b13), (b21, b22, b23), (b31, b32, b33)) =
     ((a11 * b11 + a12 * b21 + a13 * b31,
       a11 * b12 + a12 * b22 + a13 * b32,
       a11 * b13 + a12 * b23 + a13 * b33),
      (a21 * b11 + a22 * b21 + a23 * b31,
       a21 * b12 + a22 * b22 + a23 * b32,
       a21 * b13 + a22 * b23 + a23 * b33),
      (a31 * b11 + a32 * b21 + a33 * b31,
       a31 * b12 + a32 * b22 + a33 * b32,
       a31 * b13 + a32 * b23 + a33 * b33))"

fun mat_sub :: "mat3 \<Rightarrow> mat3 \<Rightarrow> mat3" where
  "mat_sub (r1, r2, r3) (s1, s2, s3) = (vec_sub r1 s1, vec_sub r2 s2, vec_sub r3 s3)"

fun vec_scale :: "real \<Rightarrow> vec3 \<Rightarrow> vec3" where
  "vec_scale k (x, y, z) = (k * x, k * y, k * z)"

fun mat_scale :: "real \<Rightarrow> mat3 \<Rightarrow> mat3" where
  "mat_scale k (r1, r2, r3) = (vec_scale k r1, vec_scale k r2, vec_scale k r3)"

definition mat_one :: mat3 where
  "mat_one = ((1, 0, 0), (0, 1, 0), (0, 0, 1))"

definition mat_zero :: mat3 where
  "mat_zero = ((0, 0, 0), (0, 0, 0), (0, 0, 0))"

fun trace :: "mat3 \<Rightarrow> real" where
  "trace ((a11, a12, a13), (a21, a22, a23), (a31, a32, a33)) = a11 + a22 + a33"

text \<open>The sum of the principal 2x2 minors.\<close>

fun minors2 :: "mat3 \<Rightarrow> real" where
  "minors2 ((a11, a12, a13), (a21, a22, a23), (a31, a32, a33)) =
     (a11 * a22 - a12 * a21) + (a11 * a33 - a13 * a31) + (a22 * a33 - a23 * a32)"

fun det :: "mat3 \<Rightarrow> real" where
  "det ((a11, a12, a13), (a21, a22, a23), (a31, a32, a33)) =
     a11 * (a22 * a33 - a23 * a32) - a12 * (a21 * a33 - a23 * a31)
       + a13 * (a21 * a32 - a22 * a31)"

fun adjugate :: "mat3 \<Rightarrow> mat3" where
  "adjugate ((a11, a12, a13), (a21, a22, a23), (a31, a32, a33)) =
     ((a22 * a33 - a23 * a32, a13 * a32 - a12 * a33, a12 * a23 - a13 * a22),
      (a23 * a31 - a21 * a33, a11 * a33 - a13 * a31, a13 * a21 - a11 * a23),
      (a21 * a32 - a22 * a31, a12 * a31 - a11 * a32, a11 * a22 - a12 * a21))"

text \<open>
  The pseudoinverse of a symmetric positive semidefinite 3x3 matrix m with characteristic
  polynomial \<open>x^3 - c1 x^2 + c2 x - c3\<close>: the inverse when \<open>c3 \<noteq> 0\<close> (rank 3);
  \<open>m ((c1^2 - c2) I - c1 m) / c2^2\<close> when \<open>c3 = 0\<close> and \<open>c2 \<noteq> 0\<close> (rank 2);
  \<open>m / c1^2\<close> when only \<open>c1 \<noteq> 0\<close> (rank 1); zero for the zero matrix.
\<close>

definition pinv_sym :: "mat3 \<Rightarrow> mat3" where
  "pinv_sym m =
     (let c1 = trace m; c2 = minors2 m; c3 = det m in
      if c3 \<noteq> 0 then mat_scale (1 / c3) (adjugate m)
      else if c2 \<noteq> 0 then
        mat_scale (1 / (c2 * c2))
          (mat_mul m (mat_sub (mat_scale (c1 * c1 - c2) mat_one) (mat_scale c1 m)))
      else if c1 \<noteq> 0 then mat_scale (1 / (c1 * c1)) m
      else mat_zero)"

text \<open>The product of a 3x3 matrix with the transpose of a k x 3 array: a 3 x k array.\<close>

fun mul_transposed :: "mat3 \<Rightarrow> ndarray2 \<Rightarrow> ndarray2" where
  "mul_transposed (r1, r2, r3) a =
     [map (\<lambda>r. dot (vec_array r1) r) a,
      map (\<lambda>r. dot (vec_array r2) r) a,
      map (\<lambda>r. dot (vec_array r3) r) a]"

definition pinv :: "ndarray2 \<Rightarrow> ndarray2" where
  "pinv a = mul_transposed (pinv_sym (gram a)) a"

text \<open>\<open>a.dot(b)\<close> for two-dimensional arrays: the matrix product.\<close>

definition ncols :: "ndarray2 \<Rightarrow> nat" where
  "ncols b = (case b of [] \<Rightarrow> 0 | r # _ \<Rightarrow> length r)"

definition matmul :: "ndarray2 \<Rightarrow> ndarray2 \<Rightarrow> ndarray2" where
  "matmul a b = map (\<lambda>r. map (\<lambda>j. dot r (col j b)) [0..<ncols b]) a"

subsection \<open>The calibrator\<close>

text \<open>
  \<open>m3d.Vector(a)\<close> for an array: the program passes three components; any other length
  is refused.
\<close>

fun vector_of_array :: "ndarray1 \<Rightarrow> error + vec3" where
  "vector_of_array [x, y, z] = Inr (x, y, z)"
| "vector_of_array _ = Inl Math3dError"

text \<open>
  \<open>np.average(vs, axis=0)\<close> over a list of arrays of one length: the componentwise
  arithmetic mean.
\<close>

definition np_average :: "ndarray1 list \<Rightarrow> ndarray1" where
  "np_average vs =
     (case vs of [] \<Rightarrow> []
      | v # _ \<Rightarrow> map (\<lambda>j. sum_list (map (\<lambda>u. u ! j) vs) / real (length vs)) [0..<length v])"

text \<open>
  The instance: the poses, the pairs enumerated by the constructor, and the attributes
  \<open>ft\<close> and \<open>bt\<close>, which do not exist before the first successful call.
\<close>

record calibrator =
  bfs :: "transform list"
  combs :: "(transform \<times> transform) list"
  ft :: "vec3 option"
  bt :: "vec3 option"

definition init :: "transform list \<Rightarrow> calibrator" where
  "init base_flange_s =
     \<lparr>bfs = base_flange_s, combs = combinations2 base_flange_s, ft = None, bt = None\<rparr>"

text \<open>
  \<open>__call__\<close>: the result or the exception, and the instance afterwards.  An exception
  leaves the instance as the assignments before it have made it.
\<close>

definition call :: "calibrator \<Rightarrow> (error + vec3 \<times> vec3) \<times> calibrator" where
  "call s =
     (case assemble_A (combs s) of
        Inl e \<Rightarrow> (Inl e, s)
      | Inr A \<Rightarrow>
     (case assemble_b (combs s) of
        Inl e \<Rightarrow> (Inl e, s)
      | Inr b \<Rightarrow>
     (case vector_of_array (reshape_flat (matmul (pinv A) b)) of
        Inl e \<Rightarrow> (Inl e, s)
      | Inr f \<Rightarrow>
     (let s1 = s\<lparr>ft := Some f\<rparr> in
      case vector_of_array
             (np_average (map (\<lambda>bfi. vec_array (transform_mul bfi f)) (bfs s1))) of
        Inl e \<Rightarrow> (Inl e, s1)
      | Inr g \<Rightarrow> (Inr (f, g), s1\<lparr>bt := Some g\<rparr>)))))"

text \<open>Construction, then invocation: the specification's \<open>calibrate\<close>.\<close>

definition calibrate :: "transform list \<Rightarrow> error + vec3 \<times> vec3" where
  "calibrate poses = fst (call (init poses))"

subsection \<open>The synthetic poses of the test harness\<close>

text \<open>
  \<open>_test\<close> (lines 71 to 78) builds each pose from a ground truth and an orientation as
  \<open>p = bt - o * ft\<close>, \<open>m3d.Transform(o, p)\<close>; this is its noise-free form, with the ground
  truth of the source.
\<close>

definition make_pose :: "vec3 \<Rightarrow> vec3 \<Rightarrow> mat3 \<Rightarrow> transform" where
  "make_pose b f o3 = \<lparr>orient = o3, pos = vec_sub b (orient_mul o3 f)\<rparr>"

definition test_bt :: vec3 where
  "test_bt = (1 / 2, 3 / 5, 7 / 10)"

definition test_ft :: vec3 where
  "test_ft = (1 / 10, 1 / 20, 3 / 20)"

text \<open>Quarter and half turns about the x and z axes.\<close>

definition rot_x90 :: mat3 where
  "rot_x90 = ((1, 0, 0), (0, 0, - 1), (0, 1, 0))"

definition rot_z90 :: mat3 where
  "rot_z90 = ((0, - 1, 0), (1, 0, 0), (0, 0, 1))"


text \<open>Three poses whose orientation changes are about two different axes.\<close>

definition good_poses :: "transform list" where
  "good_poses = map (make_pose test_bt test_ft) [mat_one, rot_z90, rot_x90]"


subsection \<open>Notions of the specification\<close>

text \<open>The index pairs i < j below n, in lexicographic order.\<close>

definition index_pairs :: "nat \<Rightarrow> (nat \<times> nat) list" where
  "index_pairs n = concat (map (\<lambda>i. map (Pair i) [Suc i..<n]) [0..<n])"

text \<open>The arithmetic mean of a list of points.\<close>

definition vec_sum :: "vec3 list \<Rightarrow> vec3" where
  "vec_sum vs = foldr vec_add vs (0, 0, 0)"

definition mean_point :: "vec3 list \<Rightarrow> vec3" where
  "mean_point vs = vec_scale (1 / real (length vs)) (vec_sum vs)"

fun vdot :: "vec3 \<Rightarrow> vec3 \<Rightarrow> real" where
  "vdot (x1, y1, z1) (x2, y2, z2) = x1 * x2 + y1 * y2 + z1 * z2"

fun cross :: "vec3 \<Rightarrow> vec3 \<Rightarrow> vec3" where
  "cross (x1, y1, z1) (x2, y2, z2) = (y1 * z2 - z1 * y2, z1 * x2 - x1 * z2, x1 * y2 - y1 * x2)"

fun mat_rows :: "mat3 \<Rightarrow> vec3 list" where
  "mat_rows (r1, r2, r3) = [r1, r2, r3]"

fun mat_transpose :: "mat3 \<Rightarrow> mat3" where
  "mat_transpose ((a11, a12, a13), (a21, a22, a23), (a31, a32, a33)) =
     ((a11, a21, a31), (a12, a22, a32), (a13, a23, a33))"

fun mat_add :: "mat3 \<Rightarrow> mat3 \<Rightarrow> mat3" where
  "mat_add (r1, r2, r3) (s1, s2, s3) = (vec_add r1 s1, vec_add r2 s2, vec_add r3 s3)"

fun outer :: "vec3 \<Rightarrow> mat3" where
  "outer (x, y, z) = ((x * x, x * y, x * z), (y * x, y * y, y * z), (z * x, z * y, z * z))"

text \<open>A rotation: an orthogonal matrix of determinant one; and an axis of it.\<close>

definition is_rotation :: "mat3 \<Rightarrow> bool" where
  "is_rotation m \<longleftrightarrow> mat_mul m (mat_transpose m) = mat_one \<and> det m = 1"

definition rotation_axis :: "mat3 \<Rightarrow> vec3 \<Rightarrow> bool" where
  "rotation_axis m v \<longleftrightarrow> v \<noteq> (0, 0, 0) \<and> orient_mul m v = v"

text \<open>A pose built without noise from the ground truth: \<open>t = Bt - R Ft\<close>.\<close>

definition exact_pose :: "vec3 \<Rightarrow> vec3 \<Rightarrow> transform \<Rightarrow> bool" where
  "exact_pose b f bf \<longleftrightarrow> pos bf = vec_sub b (orient_mul (orient bf) f)"

definition ground_truth_pose :: "vec3 \<Rightarrow> vec3 \<Rightarrow> transform \<Rightarrow> bool" where
  "ground_truth_pose b f bf \<longleftrightarrow> is_rotation (orient bf) \<and> exact_pose b f bf"

text \<open>The rows of the stacked matrix A, as vectors.\<close>

definition rows_of :: "(transform \<times> transform) list \<Rightarrow> vec3 list" where
  "rows_of cs = concat (map (\<lambda>p. mat_rows (mat_sub (orient (fst p)) (orient (snd p)))) cs)"

text \<open>\<open>pinv(a) b\<close> for a one-column b, as a vector.\<close>

definition solve :: "ndarray2 \<Rightarrow> ndarray2 \<Rightarrow> vec3" where
  "solve a b =
     (dot (pinv a ! 0) (col 0 b), dot (pinv a ! 1) (col 0 b), dot (pinv a ! 2) (col 0 b))"

text \<open>
  The naive convention of the specification's order sensitivity check: the blocks of b
  taken as \<open>ti - tj\<close>, with A as it is; and the offset solved from them.
\<close>

definition block_b_naive :: "transform \<times> transform \<Rightarrow> ndarray2" where
  "block_b_naive p = reshape_col (sub1 (vec_array (pos (fst p))) (vec_array (pos (snd p))))"

definition naive_offset :: "transform list \<Rightarrow> error + vec3" where
  "naive_offset poses =
     (case assemble_A (combinations2 poses) of
        Inl e \<Rightarrow> Inl e
      | Inr A \<Rightarrow>
     (case vstack (map block_b_naive (combinations2 poses)) of
        Inl e \<Rightarrow> Inl e
      | Inr b \<Rightarrow> vector_of_array (reshape_flat (matmul (pinv A) b))))"

section \<open>Properties\<close>

subsection \<open>Pair enumeration\<close>

lemma combinations2_length: "length (combinations2 xs) = length xs choose 2"
  by (induction xs) (simp_all add: numeral_2_eq_2)

lemma combinations2_Nil_iff: "combinations2 xs = [] \<longleftrightarrow> length xs < 2"
  by (cases xs; cases "tl xs") auto

lemma upt_0_Suc: "[0..<Suc n] = 0 # map Suc [0..<n]"
  by (simp only: upt_conv_Cons [of 0 "Suc n"] zero_less_Suc map_Suc_upt)

lemma upt_Suc_Suc: "[Suc a..<Suc b] = map Suc [a..<b]"
  by (simp only: map_Suc_upt)

lemma index_pairs_Suc:
  "index_pairs (Suc n) = map (Pair 0) [Suc 0..<Suc n] @ map (\<lambda>(i, j). (Suc i, Suc j)) (index_pairs n)"
proof -
  have a: "map (Pair (Suc i)) [Suc (Suc i)..<Suc n] = map (\<lambda>(i, j). (Suc i, Suc j)) (map (Pair i) [Suc i..<n])" for i
    by (simp only: upt_Suc_Suc map_map comp_def prod.case)
  have "index_pairs (Suc n) = concat (map (\<lambda>i. map (Pair i) [Suc i..<Suc n]) (0 # map Suc [0..<n]))"
    unfolding index_pairs_def by (simp only: upt_0_Suc)
  also have "\<dots> = map (Pair 0) [Suc 0..<Suc n] @ concat (map (\<lambda>i. map (\<lambda>(i, j). (Suc i, Suc j)) (map (Pair i) [Suc i..<n])) [0..<n])"
    by (simp only: list.map concat.simps map_map comp_def a)
  also have "\<dots> = map (Pair 0) [Suc 0..<Suc n] @ map (\<lambda>(i, j). (Suc i, Suc j)) (index_pairs n)"
    unfolding index_pairs_def by (simp only: map_concat map_map comp_def)
  finally show ?thesis .
qed

lemma map_nth_Cons_shift: "map (\<lambda>j. (x # xs) ! j) [Suc 0..<Suc (length xs)] = xs"
  by (simp only: upt_Suc_Suc map_map comp_def nth_Cons_Suc map_nth)

lemma combinations2_index:
  "combinations2 xs = map (\<lambda>(i, j). (xs ! i, xs ! j)) (index_pairs (length xs))"
proof (induction xs)
  case Nil
  show ?case by (simp add: index_pairs_def)
next
  case (Cons x xs)
  have "map (Pair x) xs = map (Pair x) (map (\<lambda>j. (x # xs) ! j) [Suc 0..<Suc (length xs)])"
    by (simp only: map_nth_Cons_shift)
  also have "\<dots> = map (\<lambda>(i, j). ((x # xs) ! i, (x # xs) ! j)) (map (Pair 0) [Suc 0..<Suc (length xs)])"
    by (simp only: map_map comp_def prod.case nth_Cons_0)
  finally have a: "map (Pair x) xs = map (\<lambda>(i, j). ((x # xs) ! i, (x # xs) ! j)) (map (Pair 0) [Suc 0..<Suc (length xs)])" .
  have b: "combinations2 xs = map (\<lambda>(i, j). ((x # xs) ! i, (x # xs) ! j)) (map (\<lambda>(i, j). (Suc i, Suc j)) (index_pairs (length xs)))"
    by (simp add: Cons.IH comp_def case_prod_unfold)
  have c: "length (x # xs) = Suc (length xs)" by simp
  show ?case
    by (simp only: combinations2.simps c index_pairs_Suc map_append a b)
qed

lemma index_pairs_mem: "(i, j) \<in> set (index_pairs n) \<longleftrightarrow> i < j \<and> j < n"
  unfolding index_pairs_def by (auto simp: image_iff)

lemma index_pairs_distinct: "distinct (index_pairs n)"
proof (induction n)
  case 0
  show ?case by (simp add: index_pairs_def)
next
  case (Suc n)
  have "distinct (map (Pair (0::nat)) [Suc 0..<Suc n])"
    by (simp add: distinct_map inj_on_def del: upt_Suc)
  moreover have "distinct (map (\<lambda>(i, j). (Suc i, Suc j)) (index_pairs n))"
    using Suc.IH by (auto simp: distinct_map inj_on_def)
  ultimately show ?case
    by (simp only: index_pairs_Suc distinct_append) (auto simp del: upt_Suc)
qed

lemma index_pairs_sorted:
  "sorted_wrt (\<lambda>(i, j) (k, l). i < k \<or> (i = k \<and> j < l)) (index_pairs n)"
proof (induction n)
  case 0
  show ?case by (simp add: index_pairs_def)
next
  case (Suc n)
  have "sorted_wrt (\<lambda>x y. x < y) [Suc 0..<Suc n]"
    by (rule sorted_wrt_upt)
  then have "sorted_wrt (\<lambda>(i, j) (k, l). i < k \<or> (i = k \<and> j < l)) (map (Pair (0::nat)) [Suc 0..<Suc n])"
    by (simp add: sorted_wrt_map del: upt_Suc)
  moreover have "sorted_wrt (\<lambda>(i, j) (k, l). i < k \<or> (i = k \<and> j < l)) (map (\<lambda>(i, j). (Suc i, Suc j)) (index_pairs n))"
    using Suc.IH by (simp add: sorted_wrt_map case_prod_unfold)
  ultimately show ?case
    by (simp only: index_pairs_Suc sorted_wrt_append) (auto simp del: upt_Suc)
qed

subsection \<open>Shapes of the assembled arrays\<close>

lemma orient_array_rows: "orient_array m = map vec_array (mat_rows m)"
  by (cases m rule: orient_array.cases) auto

lemma sub1_vec: "sub1 (vec_array u) (vec_array v) = vec_array (vec_sub u v)"
  by (cases u; cases v) (simp add: sub1_def)

lemma block_A_mat: "block_A p = orient_array (mat_sub (orient (fst p)) (orient (snd p)))"
proof -
  obtain a1 a2 a3 where a: "orient (fst p) = (a1, a2, a3)" by (cases "orient (fst p)") auto
  obtain b1 b2 b3 where b: "orient (snd p) = (b1, b2, b3)" by (cases "orient (snd p)") auto
  show ?thesis
    by (simp add: block_A_def a b orient_array_rows sub2_def sub1_vec)
qed

lemma block_b_vec: "block_b p = reshape_col (vec_array (vec_sub (pos (snd p)) (pos (fst p))))"
  by (simp add: block_b_def sub1_vec)

lemma length_block_A: "length (block_A p) = 3"
  by (simp add: block_A_mat orient_array_rows) (cases "mat_sub (orient (fst p)) (orient (snd p))", simp)

lemma length_vec_array: "length (vec_array v) = 3"
  by (cases v) simp

lemma length_block_b: "length (block_b p) = 3"
  by (simp add: block_b_vec reshape_col_def length_vec_array)

lemma block_A_row_length: "r \<in> set (block_A p) \<Longrightarrow> length r = 3"
  by (auto simp: block_A_mat orient_array_rows length_vec_array)

lemma block_b_row_length: "r \<in> set (block_b p) \<Longrightarrow> length r = 1"
  by (auto simp: block_b_vec reshape_col_def)

lemma length_concat_blocks:
  "(\<And>x. length (f x) = 3) \<Longrightarrow> length (concat (map f cs)) = 3 * length cs"
  by (induction cs) simp_all

lemma block_of_concat:
  "(\<And>x. length (f x) = 3) \<Longrightarrow> k < length cs \<Longrightarrow>
     take 3 (drop (3 * k) (concat (map f cs))) = f (cs ! k)"
proof (induction cs arbitrary: k)
  case Nil
  then show ?case by simp
next
  case (Cons c cs)
  show ?case
  proof (cases k)
    case 0
    then show ?thesis using Cons.prems(1) by simp
  next
    case (Suc k')
    then have "3 * k = 3 + 3 * k'" by simp
    then show ?thesis using Cons Suc by (simp add: drop_drop [symmetric] del: drop_drop)
  qed
qed

lemma assemble_A_eq:
  "assemble_A cs = (if cs = [] then Inl ValueError else Inr (concat (map block_A cs)))"
  by (simp add: assemble_A_def vstack_def)

lemma assemble_b_eq:
  "assemble_b cs = (if cs = [] then Inl ValueError else Inr (concat (map block_b cs)))"
  by (simp add: assemble_b_def vstack_def)

lemma upt_0_3: "[0..<3] = [0, 1, 2]"
  by (simp add: upt_rec)

lemma upt_0_1: "[0..<Suc 0] = [0]"
  by simp

lemma block_b_rows:
  "\<exists>x y z. vec_sub (pos (snd p)) (pos (fst p)) = (x, y, z) \<and> block_b p = [[x], [y], [z]]"
  by (cases "vec_sub (pos (snd p)) (pos (fst p))") (simp add: block_b_vec reshape_col_def)

lemma ncols_block_b: "cs \<noteq> [] \<Longrightarrow> ncols (concat (map block_b cs)) = 1"
proof (cases cs)
  case Nil
  assume "cs \<noteq> []"
  with Nil show ?thesis by simp
next
  case (Cons c cs')
  obtain x y z where "block_b c = [[x], [y], [z]]"
    using block_b_rows [of c] by blast
  with Cons show ?thesis by (simp add: ncols_def)
qed

lemma matmul_pinv_shape:
  "ncols b = 1 \<Longrightarrow> \<exists>x y z. matmul (pinv a) b = [[x], [y], [z]]"
  by (cases "pinv_sym (gram a)" rule: mat_rows.cases) (simp add: matmul_def pinv_def)

lemma vector_of_solution:
  "ncols b = 1 \<Longrightarrow> \<exists>f. vector_of_array (reshape_flat (matmul (pinv a) b)) = Inr f"
  using matmul_pinv_shape [of b a] by (auto simp: reshape_flat_def)

lemma vec_sum_Cons: "vec_sum (v # vs) = vec_add v (vec_sum vs)"
  by (simp add: vec_sum_def)

lemma vec_sum_components:
  "vec_sum vs = (sum_list (map fst vs), sum_list (map (\<lambda>v. fst (snd v)) vs),
                 sum_list (map (\<lambda>v. snd (snd v)) vs))"
  by (induction vs) (auto simp: vec_sum_Cons, simp add: vec_sum_def)

lemma nth_vec_array:
  "vec_array v ! 0 = fst v" "vec_array v ! Suc 0 = fst (snd v)" "vec_array v ! 2 = snd (snd v)"
  by (cases v; simp)+

lemma np_average_points:
  "vs \<noteq> [] \<Longrightarrow> np_average (map vec_array vs) = vec_array (mean_point vs)"
  by (cases vs)
    (simp_all add: np_average_def length_vec_array upt_0_3 comp_def nth_vec_array
      mean_point_def vec_sum_components del: upt_Suc)

lemma vector_of_vec_array: "vector_of_array (vec_array v) = Inr v"
  by (cases v) simp

subsection \<open>The solve\<close>

lemma blocks_A_rows: "concat (map block_A cs) = map vec_array (rows_of cs)"
  by (induction cs) (simp_all add: rows_of_def block_A_mat orient_array_rows)

lemma dot_Nil [simp]: "dot [] v = 0" "dot u [] = 0"
  by (simp_all add: dot_def)

lemma dot_Cons [simp]: "dot (x # u) (y # v) = x * y + dot u v"
  by (simp add: dot_def)

lemma dot_vec_array: "dot (vec_array u) (vec_array v) = vdot u v"
  by (cases u; cases v) simp

lemma col_Nil [simp]: "col j [] = []"
  by (simp add: col_def)

lemma col_Cons [simp]: "col j (r # a) = r ! j # col j a"
  by (simp add: col_def)

lemma adjugate_mul: "mat_mul (adjugate m) m = mat_scale (det m) mat_one"
  by (cases m rule: orient_array.cases) (simp add: mat_one_def algebra_simps)

lemma mat_mul_scale: "mat_mul (mat_scale k a) b = mat_scale k (mat_mul a b)"
  by (cases a rule: orient_array.cases; cases b rule: orient_array.cases)
     (simp add: algebra_simps)

lemma mat_scale_scale: "mat_scale k (mat_scale l a) = mat_scale (k * l) a"
  by (cases a rule: orient_array.cases) simp

lemma mat_scale_one: "mat_scale 1 a = a"
  by (cases a rule: orient_array.cases) simp

lemma pinv_sym_left_inverse: "det m \<noteq> 0 \<Longrightarrow> mat_mul (pinv_sym m) m = mat_one"
  by (simp add: pinv_sym_def Let_def mat_mul_scale adjugate_mul mat_scale_scale mat_scale_one)

lemma orient_mul_one: "orient_mul mat_one v = v"
  by (cases v) (simp add: mat_one_def)

lemma combinations2_set: "set (combinations2 xs) \<subseteq> set xs \<times> set xs"
  by (induction xs) auto

lemma exact_block_b:
  assumes "exact_pose Bt Ft (fst p)" "exact_pose Bt Ft (snd p)"
  shows "block_b p = map (\<lambda>r. [vdot r Ft]) (mat_rows (mat_sub (orient (fst p)) (orient (snd p))))"
proof -
  obtain a1 a2 a3 b1 b2 b3 c1 c2 c3 where a: "orient (fst p) = ((a1, a2, a3), (b1, b2, b3), (c1, c2, c3))"
    by (cases "orient (fst p)" rule: orient_array.cases) auto
  obtain d1 d2 d3 e1 e2 e3 f1 f2 f3 where b: "orient (snd p) = ((d1, d2, d3), (e1, e2, e3), (f1, f2, f3))"
    by (cases "orient (snd p)" rule: orient_array.cases) auto
  obtain x y z where f: "Ft = (x, y, z)" by (cases Ft) auto
  obtain u v w where g: "Bt = (u, v, w)" by (cases Bt) auto
  show ?thesis
    using assms
    by (simp add: block_b_vec exact_pose_def a b f g reshape_col_def algebra_simps)
qed

lemma exact_blocks_b:
  assumes "\<forall>p\<in>set cs. exact_pose Bt Ft (fst p) \<and> exact_pose Bt Ft (snd p)"
  shows "concat (map block_b cs) = map (\<lambda>r. [vdot r Ft]) (rows_of cs)"
  using assms
proof (induction cs)
  case Nil
  show ?case by (simp add: rows_of_def)
next
  case (Cons c cs)
  have "block_b c = map (\<lambda>r. [vdot r Ft]) (mat_rows (mat_sub (orient (fst c)) (orient (snd c))))"
    using Cons.prems exact_block_b [of Bt Ft c] by simp
  moreover have "concat (map block_b cs) = map (\<lambda>r. [vdot r Ft]) (rows_of cs)"
    using Cons by simp
  ultimately show ?case by (simp add: rows_of_def)
qed

lemma col0_rhs: "col 0 (map (\<lambda>r. [vdot r f]) rs) = map (\<lambda>r. vdot r f) rs"
  by (simp add: col_def)

lemma gram_Nil: "gram [] = mat_zero"
  by (simp add: gram_def mat_zero_def)

lemma gram_Cons: "gram (vec_array r # a) = mat_add (outer r) (gram a)"
  by (cases r) (simp add: gram_def)

lemma pinv_row: "map (\<lambda>r. dot (vec_array p) r) (map vec_array rs) = map (vdot p) rs"
  by (simp add: dot_vec_array)

lemma normal_equations:
  "dot (map (vdot p) rs) (map (\<lambda>r. vdot r f) rs) = vdot p (orient_mul (gram (map vec_array rs)) f)"
proof (induction rs)
  case Nil
  show ?case by (cases p; cases f) (simp add: gram_Nil mat_zero_def)
next
  case (Cons r rs)
  obtain g1 g2 g3 g4 g5 g6 g7 g8 g9 where g: "gram (map vec_array rs) = ((g1, g2, g3), (g4, g5, g6), (g7, g8, g9))"
    by (cases "gram (map vec_array rs)" rule: orient_array.cases) auto
  obtain p1 p2 p3 where p: "p = (p1, p2, p3)" by (cases p) auto
  obtain f1 f2 f3 where f: "f = (f1, f2, f3)" by (cases f) auto
  obtain r1 r2 r3 where r: "r = (r1, r2, r3)" by (cases r) auto
  have "dot (map (vdot p) (r # rs)) (map (\<lambda>r. vdot r f) (r # rs))
        = vdot p r * vdot r f + vdot p (orient_mul (gram (map vec_array rs)) f)"
    using Cons.IH by simp
  also have "\<dots> = vdot p (orient_mul (gram (map vec_array (r # rs))) f)"
    by (simp only: list.map gram_Cons) (simp add: g p f r algebra_simps)
  finally show ?case .
qed

lemma solve_ok:
  "ncols b = 1 \<Longrightarrow> vector_of_array (reshape_flat (matmul (pinv a) b)) = Inr (solve a b)"
  by (cases "pinv_sym (gram a)" rule: mat_rows.cases)
     (simp add: matmul_def pinv_def reshape_flat_def solve_def)

lemma solve_normal:
  "solve (map vec_array rs) (map (\<lambda>r. [vdot r f]) rs)
     = orient_mul (mat_mul (pinv_sym (gram (map vec_array rs))) (gram (map vec_array rs))) f"
proof -
  let ?G = "gram (map vec_array rs)"
  obtain p1 p2 p3 where P: "pinv_sym ?G = (p1, p2, p3)"
    by (cases "pinv_sym ?G") auto
  have row: "dot (map (\<lambda>r. dot (vec_array p) r) (map vec_array rs)) (map (\<lambda>r. vdot r f) rs)
             = vdot p (orient_mul ?G f)" for p
    by (simp only: pinv_row normal_equations)
  have "solve (map vec_array rs) (map (\<lambda>r. [vdot r f]) rs)
        = (vdot p1 (orient_mul ?G f), vdot p2 (orient_mul ?G f), vdot p3 (orient_mul ?G f))"
    by (simp add: solve_def pinv_def P col0_rhs row del: map_map)
  also have "\<dots> = orient_mul (mat_mul (p1, p2, p3) ?G) f"
    by (cases ?G rule: orient_array.cases; cases f; cases p1; cases p2; cases p3)
       (simp add: algebra_simps)
  finally show ?thesis by (simp add: P)
qed

lemma solve_full_rank:
  "det (gram (map vec_array rs)) \<noteq> 0 \<Longrightarrow>
     solve (map vec_array rs) (map (\<lambda>r. [vdot r f]) rs) = f"
  by (simp add: solve_normal pinv_sym_left_inverse orient_mul_one)

subsection \<open>The call\<close>

lemma combs_init: "combs (init ps) = combinations2 ps"
  by (simp add: init_def)

lemma bfs_init: "bfs (init ps) = ps"
  by (simp add: init_def)


lemma call_nonempty:
  assumes "combs s \<noteq> []" and "bfs s \<noteq> []"
  shows "call s =
           (let f = solve (concat (map block_A (combs s))) (concat (map block_b (combs s)));
                g = mean_point (map (\<lambda>bfi. transform_mul bfi f) (bfs s))
            in (Inr (f, g), s\<lparr>ft := Some f, bt := Some g\<rparr>))"
proof -
  have "np_average (map (\<lambda>bfi. vec_array (transform_mul bfi f)) (bfs s))
        = vec_array (mean_point (map (\<lambda>bfi. transform_mul bfi f) (bfs s)))" for f
    using np_average_points [of "map (\<lambda>bfi. transform_mul bfi f) (bfs s)"] assms(2)
    by (simp add: comp_def)
  then show ?thesis
    using assms(1)
    by (simp add: call_def assemble_A_eq assemble_b_eq solve_ok ncols_block_b Let_def
          vector_of_vec_array)
qed


lemma calibrate_long:
  assumes "2 \<le> length ps"
  shows "call (init ps) =
           (let f = solve (concat (map block_A (combinations2 ps)))
                      (concat (map block_b (combinations2 ps)));
                g = mean_point (map (\<lambda>bfi. transform_mul bfi f) ps)
            in (Inr (f, g), (init ps)\<lparr>ft := Some f, bt := Some g\<rparr>))"
proof -
  have "combs (init ps) \<noteq> []"
    using assms by (simp add: combs_init combinations2_Nil_iff)
  moreover have "bfs (init ps) \<noteq> []"
    using assms by (auto simp: bfs_init)
  ultimately show ?thesis
    using call_nonempty [of "init ps"] by (simp add: combs_init bfs_init)
qed

lemma length_index_pairs: "length (index_pairs n) = n choose 2"
  using combinations2_index [of "[0..<n]"] combinations2_length [of "[0..<n]"]
  by (metis length_map length_upt diff_zero)

lemma mean_point_const:
  assumes "vs \<noteq> []" and "\<forall>v\<in>set vs. v = c"
  shows "mean_point vs = c"
proof -
  have "vs = replicate (length vs) c"
    using assms(2) by (simp add: replicate_length_same)
  moreover have "vec_sum (replicate n c) = vec_scale (real n) c" for n
    by (induction n) (cases c, simp add: vec_sum_def, cases c, simp add: vec_sum_def algebra_simps)
  ultimately have "vec_sum vs = vec_scale (real (length vs)) c"
    by metis
  moreover have "real (length vs) \<noteq> 0"
    using assms(1) by simp
  ultimately show ?thesis
    by (cases c) (simp add: mean_point_def)
qed

lemma exact_transform_mul: "exact_pose b f bf \<Longrightarrow> transform_mul bf f = b"
  by (cases "orient bf" rule: orient_array.cases; cases b; cases f)
     (simp add: exact_pose_def transform_mul_def)

lemma exact_pairs:
  assumes "\<forall>p\<in>set ps. exact_pose b f p"
  shows "\<forall>c\<in>set (combinations2 ps). exact_pose b f (fst c) \<and> exact_pose b f (snd c)"
  using assms combinations2_set [of ps] by auto

text \<open>
  Noise-free poses and a stacked matrix of full column rank: the call returns the ground
  truth.
\<close>

lemma exact_recovery:
  assumes exact: "\<forall>p\<in>set ps. exact_pose b f p"
    and A: "assemble_A (combinations2 ps) = Inr A"
    and rank: "det (gram A) \<noteq> 0"
  shows "calibrate ps = Inr (f, b)"
proof -
  let ?cs = "combinations2 ps"
  have ne: "?cs \<noteq> []"
    using A by (auto simp: assemble_A_eq split: if_splits)
  then have len: "2 \<le> length ps"
    by (simp add: combinations2_Nil_iff)
  have A_rows: "A = map vec_array (rows_of ?cs)"
    using A ne by (simp add: assemble_A_eq blocks_A_rows)
  have b_rows: "concat (map block_b ?cs) = map (\<lambda>r. [vdot r f]) (rows_of ?cs)"
    using exact_pairs [OF exact] by (rule exact_blocks_b)
  have sol: "solve (concat (map block_A ?cs)) (concat (map block_b ?cs)) = f"
    using rank by (simp only: blocks_A_rows b_rows) (simp add: A_rows solve_full_rank)
  have "ps \<noteq> []"
    using len by auto
  moreover have "\<forall>v\<in>set (map (\<lambda>bfi. transform_mul bfi f) ps). v = b"
    using exact by (auto simp: exact_transform_mul)
  ultimately have "mean_point (map (\<lambda>bfi. transform_mul bfi f) ps) = b"
    by (intro mean_point_const) simp_all
  then show ?thesis
    using calibrate_long [OF len] by (simp add: calibrate_def sol Let_def)
qed

section \<open>The claims\<close>



text \<open>
  C2: for the k-th enumerated pair (i, j), rows 3k to 3k+2 of A are the rotation difference
  Ri - Rj and the same rows of b are the translation difference tj - ti, indices swapped;
  the pair order is the same in A and in b.
\<close>

theorem block_conventions:
  assumes "assemble_A (combs (init ps)) = Inr A"
    and "assemble_b (combs (init ps)) = Inr b"
    and "k < length (index_pairs (length ps))"
    and "index_pairs (length ps) ! k = (i, j)"
  shows "take 3 (drop (3 * k) A) = orient_array (mat_sub (orient (ps ! i)) (orient (ps ! j))) \<and>
         take 3 (drop (3 * k) b) = reshape_col (vec_array (vec_sub (pos (ps ! j)) (pos (ps ! i)))) \<and>
         combs (init ps) ! k = (ps ! i, ps ! j) \<and> i < j \<and> j < length ps"
proof -
  let ?cs = "combinations2 ps"
  have k: "k < length ?cs"
    using assms(3) by (simp add: combinations2_index)
  have pair: "?cs ! k = (ps ! i, ps ! j)"
    using assms(3,4) by (simp add: combinations2_index)
  have ne: "?cs \<noteq> []"
    using k by auto
  have A: "A = concat (map block_A ?cs)" and b: "b = concat (map block_b ?cs)"
    using assms(1,2) ne by (simp_all add: combs_init assemble_A_eq assemble_b_eq)
  have "take 3 (drop (3 * k) A) = block_A (?cs ! k)"
    unfolding A by (rule block_of_concat [OF length_block_A k])
  moreover have "take 3 (drop (3 * k) b) = block_b (?cs ! k)"
    unfolding b by (rule block_of_concat [OF length_block_b k])
  moreover have "(i, j) \<in> set (index_pairs (length ps))"
    using assms(3,4) nth_mem by fastforce
  ultimately show ?thesis
    using pair by (simp add: block_A_mat block_b_vec combs_init index_pairs_mem)
qed

theorem block_conventions_witness:
  "take 3 (drop (3 * 1) (concat (map block_A (combinations2 good_poses))))
     = orient_array (mat_sub (orient (good_poses ! 0)) (orient (good_poses ! 2))) \<and>
   take 3 (drop (3 * 1) (concat (map block_b (combinations2 good_poses))))
     = reshape_col (vec_array (vec_sub (pos (good_poses ! 2)) (pos (good_poses ! 0))))"
proof -
  have a: "assemble_A (combs (init good_poses)) = Inr (concat (map block_A (combinations2 good_poses)))"
    by (simp add: combs_init assemble_A_eq good_poses_def)
  have b: "assemble_b (combs (init good_poses)) = Inr (concat (map block_b (combinations2 good_poses)))"
    by (simp add: combs_init assemble_b_eq good_poses_def)
  have l: "length good_poses = 3"
    by (simp add: good_poses_def)
  have k: "1 < length (index_pairs (length good_poses))"
    unfolding l by code_simp
  have p: "index_pairs (length good_poses) ! 1 = (0, 2)"
    unfolding l by code_simp
  show ?thesis
    using block_conventions [OF a b k p] by simp
qed



end
